theory Spec2Isabelle
  imports Main "HOL-Library.Sublist"
begin

section \<open>Python string operations used by \<open>extract_queries.py\<close>\<close>

text \<open>
  A Python \<open>str\<close> is modelled as a \<open>string\<close>, one \<open>char\<close> per code point, so the model
  covers the code points 0 to 255 (Latin-1). Every literal of the program is ASCII.
\<close>

text \<open>\<open>c in s\<close> for a one-character \<open>c\<close> is \<open>c \<in> set s\<close>; \<open>sub in s\<close> is \<open>str_contains\<close>.\<close>

fun str_contains :: "string \<Rightarrow> string \<Rightarrow> bool" where
  "str_contains sub [] = (sub = [])"
| "str_contains sub (c # cs) = (prefix sub (c # cs) \<or> str_contains sub cs)"

text \<open>
  \<open>s.replace(old, new)\<close>: the occurrences of \<open>old\<close> are found from the left and do not
  overlap. With an empty \<open>old\<close> Python puts \<open>new\<close> before every character and at the end.
\<close>

function str_replace :: "string \<Rightarrow> string \<Rightarrow> string \<Rightarrow> string" where
  "str_replace old new s =
     (if old = [] then new @ concat (map (\<lambda>c. c # new) s)
      else if s = [] then []
      else if prefix old s then new @ str_replace old new (drop (length old) s)
      else hd s # str_replace old new (tl s))"
  by pat_completeness auto
termination
  by (relation "measure (\<lambda>(old, new, s). length s)") auto

declare str_replace.simps [simp del]

text \<open>\<open>s.count(c)\<close> for a one-character \<open>c\<close>.\<close>

definition str_count :: "string \<Rightarrow> char \<Rightarrow> nat" where
  "str_count s c = length (filter (\<lambda>x. x = c) s)"

text \<open>
  \<open>s.strip()\<close> removes the white space at both ends. Below code point 256 Python's
  white space is TAB, LF, VT, FF, CR, the separators 28 to 31, the space, NEL (133) and
  the no-break space (160).
\<close>

definition isspace :: "char \<Rightarrow> bool" where
  "isspace c = ((of_char c :: nat) \<in> {9, 10, 11, 12, 13, 28, 29, 30, 31, 32, 133, 160})"

definition str_strip :: "string \<Rightarrow> string" where
  "str_strip s = rev (dropWhile isspace (rev (dropWhile isspace s)))"

text \<open>
  \<open>s.upper()\<close>, character by character. The sharp s (223) becomes \<open>SS\<close>. The upper-case
  forms of the micro sign (181) and of y with diaeresis (255) lie beyond code point 255;
  the model leaves these two characters as they are, which like their real upper-case
  forms are not ASCII.
\<close>

definition char_upper :: "char \<Rightarrow> string" where
  "char_upper c =
     (let n = (of_char c :: nat) in
      if 97 \<le> n \<and> n \<le> 122 then [char_of (n - 32)]
      else if n = 223 then ''SS''
      else if 224 \<le> n \<and> n \<le> 254 \<and> n \<noteq> 247 then [char_of (n - 32)]
      else [c])"

definition str_upper :: "string \<Rightarrow> string" where
  "str_upper s = concat (map char_upper s)"

text \<open>The slices \<open>s[-1:]\<close> and \<open>s[1:-1]\<close>.\<close>

definition slice_last :: "string \<Rightarrow> string" where
  "slice_last s = drop (length s - 1) s"

definition slice_inner :: "string \<Rightarrow> string" where
  "slice_inner s = drop 1 (take (length s - 1) s)"

text \<open>What an f-string prints for a value that may be \<open>None\<close>.\<close>

fun fmt :: "string option \<Rightarrow> string" where
  "fmt None = ''None''"
| "fmt (Some s) = s"

section \<open>The expression tree\<close>

text \<open>The class \<open>Node\<close>: a value and two children, each a node or \<open>None\<close>.\<close>

datatype Node = Node (val: string) (left: "Node option") (right: "Node option")

datatype error = TypeError | KeyError | AttributeError

text \<open>
  \<open>generate_node\<close>: the node of the first \<open>|\<close>, or else of the first \<open>&\<close>, with the text
  on either side as leaves. Without an operator \<open>idx\<close> stays \<open>None\<close> and \<open>exp[idx]\<close>
  raises TypeError.
\<close>

definition str_index :: "string \<Rightarrow> char \<Rightarrow> nat" where
  "str_index s c = length (takeWhile (\<lambda>x. x \<noteq> c) s)"

definition generate_node :: "string \<Rightarrow> error + Node" where
  "generate_node exp =
     (let idx = (if CHR ''|'' \<in> set exp then Some (str_index exp CHR ''|'')
                 else if CHR ''&'' \<in> set exp then Some (str_index exp CHR ''&'')
                 else None)
      in case idx of
           None \<Rightarrow> Inl TypeError
         | Some i \<Rightarrow>
             Inr (Node (str_strip [exp ! i])
                    (Some (Node (str_strip (take i exp)) None None))
                    (Some (Node (str_strip (drop (i + 1) exp)) None None))))"

text \<open>The builder only ever calls itself on a shorter text.\<close>

lemma length_str_strip_le: "length (str_strip s) \<le> length s"
proof -
  have "length (str_strip s) \<le> length (dropWhile isspace s)"
    unfolding str_strip_def using length_dropWhile_le [of isspace "rev (dropWhile isspace s)"]
    by simp
  also have "\<dots> \<le> length s" by (rule length_dropWhile_le)
  finally show ?thesis .
qed

lemma length_strip_take_less: "i < length exp \<Longrightarrow> length (str_strip (take i exp)) < length exp"
  using length_str_strip_le [of "take i exp"] by simp

lemma length_strip_drop_less:
  "i < length exp \<Longrightarrow> length (str_strip (drop (Suc i) exp)) < length exp"
  using length_str_strip_le [of "drop (Suc i) exp"] by simp

lemma length_slice_inner_less: "c \<in> set exp \<Longrightarrow> length (slice_inner exp) < length exp"
  by (cases exp) (auto simp: slice_inner_def)

text \<open>
  \<open>create_exp_tree\<close>. The \<open>for\<close> loop is \<open>scan\<close>: \<open>i\<close> is the loop index, \<open>lopen\<close> the
  count of open parentheses and \<open>node\<close> the variable of that name (\<open>None\<close> until an
  operator is met at \<open>lopen == 0\<close>; \<open>flag\<close> is 1 exactly when \<open>node\<close> has been assigned).
  Every operator met at \<open>lopen == 0\<close> builds both subtrees, and the last one stays.
  The interpreter's limit on the depth of recursion is not part of the model.
\<close>

function create_exp_tree :: "string \<Rightarrow> error + Node"
  and scan :: "string \<Rightarrow> nat \<Rightarrow> int \<Rightarrow> Node option \<Rightarrow> error + Node option"
where
  "create_exp_tree exp =
     (if CHR ''|'' \<notin> set exp \<and> CHR ''&'' \<notin> set exp then Inr (Node exp None None)
      else if str_count exp CHR ''('' < 1 \<and> slice_last exp = '')'' then
        generate_node (str_replace '')'' '''' (str_replace ''('' '''' exp))
      else
        (case scan exp 0 0 None of
           Inl e \<Rightarrow> Inl e
         | Inr (Some node) \<Rightarrow> Inr node
         | Inr None \<Rightarrow> create_exp_tree (slice_inner exp)))"
| "scan exp i lopen node =
     (if length exp \<le> i then Inr node
      else if exp ! i = CHR ''('' then scan exp (i + 1) (lopen + 1) node
      else if exp ! i = CHR '')'' then scan exp (i + 1) (lopen - 1) node
      else if (exp ! i = CHR ''|'' \<or> exp ! i = CHR ''&'') \<and> lopen = 0 then
        (case create_exp_tree (str_strip (take i exp)) of
           Inl e \<Rightarrow> Inl e
         | Inr lnode \<Rightarrow>
             (case create_exp_tree (str_strip (drop (i + 1) exp)) of
                Inl e \<Rightarrow> Inl e
              | Inr rnode \<Rightarrow>
                  scan exp (i + 1) lopen (Some (Node [exp ! i] (Some lnode) (Some rnode)))))
      else scan exp (i + 1) lopen node)"
  by pat_completeness auto

termination
  by (relation "measures
        [\<lambda>x. case x of Inl exp \<Rightarrow> length exp | Inr (exp, i, lopen, node) \<Rightarrow> length exp,
         \<lambda>x. case x of Inl exp \<Rightarrow> length exp + 1 | Inr (exp, i, lopen, node) \<Rightarrow> length exp - i]")
     (auto simp: length_strip_take_less length_strip_drop_less length_slice_inner_less)

declare create_exp_tree.simps [simp del] scan.simps [simp del]

section \<open>The emitters\<close>

text \<open>
  Each emitter takes a node or \<open>None\<close>. \<open>if node and node.left\<close> holds when the node has
  a left child; for \<open>None\<close> neither branch is taken and the function returns \<open>None\<close>,
  which an f-string prints as \<open>None\<close>.
\<close>

fun inorder :: "Node option \<Rightarrow> string option" where
  "inorder None = None"
| "inorder (Some (Node v l r)) =
     (if l \<noteq> None then
        Some (''('' @ fmt (inorder l) @ '' '' @ v @ '' '' @ fmt (inorder r) @ '')'')
      else Some ('' text like '' @ [CHR 0x27] @ ''%'' @ v @ ''%'' @ [CHR 0x27]))"

fun inorder_orm :: "Node option \<Rightarrow> string option" where
  "inorder_orm None = None"
| "inorder_orm (Some (Node v l r)) =
     (if l \<noteq> None then
        Some (''Q('' @ fmt (inorder_orm l) @ '') '' @ v @ '' Q('' @ fmt (inorder_orm r) @ '')'')
      else Some (''text__icontains='' @ [CHR 0x27] @ v @ [CHR 0x27]))"

fun preorder :: "Node option \<Rightarrow> string option" where
  \<open>preorder None = None\<close>
| \<open>preorder (Some (Node v l r)) =
     (if l \<noteq> None then
        Some ('' $'' @ v @ '' : ['' @ fmt (preorder l) @ '', '' @ fmt (preorder r) @ '']'')
      else Some (''{"text" : /.*'' @ v @ ''.*/i}''))\<close>

fun preorder_elasticsearch :: "Node option \<Rightarrow> string option" where
  \<open>preorder_elasticsearch None = None\<close>
| \<open>preorder_elasticsearch (Some (Node v l r)) =
     (if l \<noteq> None then
        Some ('' { "bool" : {'' @
              ('' '' @ v @ '' : ['' @ fmt (preorder_elasticsearch l) @ '', '' @
                 fmt (preorder_elasticsearch r) @ '']'') @
              ''} }'')
      else Some (''{"match" : { "text" : {'' @ ''"'' @ v @ ''"'' @ ''} } ''))\<close>

section \<open>The dispatcher\<close>

text \<open>The two module-level dictionaries, never written after the module is loaded.\<close>

definition BASE_QUERIES :: "(string \<times> string) list" where
  \<open>BASE_QUERIES =
     [(''SQL'', ''SELECT * FROM Resume WHERE ''),
      (''MONGODB'', ''{''),
      (''ORM'', []),
      (''ELASTICSEARCH'', '' "query": '')]\<close>

definition END_QUERIES :: "(string \<times> string) list" where
  "END_QUERIES =
     [(''SQL'', []),
      (''MONGODB'', ''}''),
      (''ORM'', []),
      (''ELASTICSEARCH'', [])]"

text \<open>\<open>d[k]\<close> raises KeyError for a missing key.\<close>

definition dict_get :: "(string \<times> string) list \<Rightarrow> string \<Rightarrow> error + string" where
  "dict_get d k = (case map_of d k of None \<Rightarrow> Inl KeyError | Some v \<Rightarrow> Inr v)"

text \<open>
  \<open>create_query\<close>. A method call or a slice on \<open>None\<close> raises (AttributeError and
  TypeError); it cannot happen for a root that is a node.
\<close>

definition create_query :: "Node \<Rightarrow> string \<Rightarrow> error + string" where
  \<open>create_query root query_type =
     (let temp_query =
        (if query_type = ''ORM'' then
           (case inorder_orm (Some root) of
              None \<Rightarrow> Inl AttributeError
            | Some q \<Rightarrow> Inr (str_replace ''&'' '','' q))
         else if query_type = ''ELASTICSEARCH'' then
           (case preorder_elasticsearch (Some root) of
              None \<Rightarrow> Inl AttributeError
            | Some q \<Rightarrow> Inr (str_replace ''&'' ''"MUST"'' (str_replace ''|'' ''"SHOULD"'' q)))
         else if query_type = ''SQL'' then
           (case inorder (Some root) of
              None \<Rightarrow> Inl TypeError
            | Some q \<Rightarrow> Inr (str_replace ''&'' ''AND'' (str_replace ''|'' ''OR'' (slice_inner q))))
         else if query_type = ''MONGODB'' then
           (case preorder (Some root) of
              None \<Rightarrow> Inl AttributeError
            | Some q \<Rightarrow> Inr (str_replace ''&'' ''AND'' (str_replace ''|'' ''OR'' q)))
         else Inr [])
      in case temp_query of
           Inl e \<Rightarrow> Inl e
         | Inr t \<Rightarrow>
             (case dict_get BASE_QUERIES query_type of
                Inl e \<Rightarrow> Inl e
              | Inr b \<Rightarrow>
                  (case dict_get END_QUERIES query_type of
                     Inl e \<Rightarrow> Inl e
                   | Inr e \<Rightarrow> Inr (b @ t @ e))))\<close>

text \<open>The dictionary \<open>value_dict\<close>, in the order of its items, and the loop over it.\<close>

definition value_dict :: "(string \<times> string) list" where
  \<open>value_dict =
     [(''('', '' ( ''),
      ('')'', '' ) ''),
      ('' OR '', ''|''),
      ('' or '', ''|''),
      ('' AND '', ''&''),
      ('' and '', ''&''),
      (''"'', [])]\<close>

definition normalize :: "string \<Rightarrow> string" where
  "normalize exp = foldl (\<lambda>e (key, value). str_replace key value e) exp value_dict"

definition invalid_query_type :: string where
  "invalid_query_type =
     ''Invalid query type request. SQL, MONGODB, and ORM are only currently accepted query types''"

text \<open>
  \<open>generate_query\<close>. The console is the list of the lines printed so far; \<open>print\<close>
  appends one. An exception leaves the function before the \<open>print\<close>.
\<close>

type_synonym console = "string list"

definition generate_query :: "string \<Rightarrow> string \<Rightarrow> console \<Rightarrow> (error + string) \<times> console" where
  "generate_query exp query_type out =
     (let query_type = str_upper query_type in
      if query_type \<notin> set (map fst BASE_QUERIES) then (Inr invalid_query_type, out)
      else
        (let exp = normalize exp in
         case create_exp_tree exp of
           Inl e \<Rightarrow> (Inl e, out)
         | Inr root \<Rightarrow>
             (case create_query root query_type of
                Inl e \<Rightarrow> (Inl e, out)
              | Inr raw_query \<Rightarrow> (Inr raw_query, out @ [raw_query]))))"

section \<open>Properties stated by the specification\<close>

text \<open>
  A tree is well formed when every node has both children or none, down to the leaves.
\<close>

fun well_formed :: "Node \<Rightarrow> bool" where
  "well_formed (Node v None None) = True"
| "well_formed (Node v (Some l) (Some r)) = (well_formed l \<and> well_formed r)"
| "well_formed (Node v _ _) = False"

text \<open>
  A flat chain: a first operand and then operators each followed by an operand, where an
  operand holds no operator and no parenthesis. \<open>left_assoc\<close> is the tree that groups
  such a chain from the left, with the trimmed operands as leaves.
\<close>

definition is_operator :: "char \<Rightarrow> bool" where
  "is_operator c = (c = CHR ''|'' \<or> c = CHR ''&'')"

definition plain :: "string \<Rightarrow> bool" where
  "plain s = list_all (\<lambda>c. c \<noteq> CHR ''|'' \<and> c \<noteq> CHR ''&'' \<and> c \<noteq> CHR ''('' \<and> c \<noteq> CHR '')'') s"

definition chain :: "string \<Rightarrow> (char \<times> string) list \<Rightarrow> string" where
  "chain o1 rest = o1 @ concat (map (\<lambda>(c, x). c # x) rest)"

definition leaf :: "string \<Rightarrow> Node" where
  "leaf v = Node v None None"

definition left_assoc :: "string \<Rightarrow> (char \<times> string) list \<Rightarrow> Node" where
  "left_assoc o1 rest =
     foldl (\<lambda>t (c, x). Node [c] (Some t) (Some (leaf (str_strip x)))) (leaf (str_strip o1)) rest"

definition chain_ok :: "(char \<times> string) list \<Rightarrow> bool" where
  "chain_ok rest = list_all (\<lambda>(c, x). is_operator c \<and> plain x) rest"

definition no_parens :: "string \<Rightarrow> bool" where
  "no_parens s = (CHR ''('' \<notin> set s \<and> CHR '')'' \<notin> set s)"



text \<open>The two substitutions that \<open>create_query\<close> applies to the relational body.\<close>

definition sql_keywords :: "string \<Rightarrow> string" where
  "sql_keywords s = str_replace ''&'' ''AND'' (str_replace ''|'' ''OR'' s)"

section \<open>The string operations\<close>

lemma str_replace_char:
  "str_replace [a] new s = concat (map (\<lambda>c. if c = a then new else [c]) s)"
proof (induction s)
  case Nil
  show ?case by (simp add: str_replace.simps)
next
  case (Cons c cs)
  show ?case
    using Cons by (subst str_replace.simps) auto
qed

lemma str_replace_char_delete: "str_replace [a] [] s = filter (\<lambda>c. c \<noteq> a) s"
  by (induction s) (simp_all add: str_replace_char)

section \<open>The tree builder always returns a tree\<close>

lemma generate_node_total:
  assumes "CHR ''|'' \<in> set e \<or> CHR ''&'' \<in> set e"
  shows "\<exists>t. generate_node e = Inr t \<and> well_formed t"
  using assms by (auto simp: generate_node_def)

lemma create_exp_tree_leaf:
  "CHR ''|'' \<notin> set exp \<Longrightarrow> CHR ''&'' \<notin> set exp \<Longrightarrow> create_exp_tree exp = Inr (Node exp None None)"
  by (subst create_exp_tree.simps) simp

lemma create_exp_tree_closing:
  "CHR ''|'' \<in> set exp \<or> CHR ''&'' \<in> set exp \<Longrightarrow>
   str_count exp CHR ''('' < 1 \<and> slice_last exp = '')'' \<Longrightarrow>
   create_exp_tree exp = generate_node (str_replace '')'' [] (str_replace ''('' [] exp))"
  by (subst create_exp_tree.simps) auto

lemma create_exp_tree_loop:
  "CHR ''|'' \<in> set exp \<or> CHR ''&'' \<in> set exp \<Longrightarrow>
   \<not> (str_count exp CHR ''('' < 1 \<and> slice_last exp = '')'') \<Longrightarrow>
   create_exp_tree exp =
     (case scan exp 0 0 None of
        Inl e \<Rightarrow> Inl e
      | Inr (Some node) \<Rightarrow> Inr node
      | Inr None \<Rightarrow> create_exp_tree (slice_inner exp))"
  by (subst create_exp_tree.simps) auto

lemma scan_end: "length exp \<le> i \<Longrightarrow> scan exp i lopen node = Inr node"
  by (subst scan.simps) simp

lemma scan_open:
  "i < length exp \<Longrightarrow> exp ! i = CHR ''('' \<Longrightarrow> scan exp i lopen node = scan exp (i + 1) (lopen + 1) node"
  by (subst scan.simps) simp

lemma scan_close:
  "i < length exp \<Longrightarrow> exp ! i = CHR '')'' \<Longrightarrow> scan exp i lopen node = scan exp (i + 1) (lopen - 1) node"
  by (subst scan.simps) simp

lemma scan_operator:
  "i < length exp \<Longrightarrow> exp ! i = CHR ''|'' \<or> exp ! i = CHR ''&'' \<Longrightarrow> lopen = 0 \<Longrightarrow>
   scan exp i lopen node =
     (case create_exp_tree (str_strip (take i exp)) of
        Inl e \<Rightarrow> Inl e
      | Inr lnode \<Rightarrow>
          (case create_exp_tree (str_strip (drop (i + 1) exp)) of
             Inl e \<Rightarrow> Inl e
           | Inr rnode \<Rightarrow>
               scan exp (i + 1) lopen (Some (Node [exp ! i] (Some lnode) (Some rnode)))))"
  by (subst scan.simps) auto

lemma scan_skip:
  "i < length exp \<Longrightarrow> exp ! i \<noteq> CHR ''('' \<Longrightarrow> exp ! i \<noteq> CHR '')'' \<Longrightarrow>
   \<not> ((exp ! i = CHR ''|'' \<or> exp ! i = CHR ''&'') \<and> lopen = 0) \<Longrightarrow>
   scan exp i lopen node = scan exp (i + 1) lopen node"
  by (subst scan.simps) auto

lemma create_exp_tree_scan_total:
  "\<exists>t. create_exp_tree exp = Inr t \<and> well_formed t"
  "(\<forall>n. node = Some n \<longrightarrow> well_formed n) \<Longrightarrow>
     \<exists>r. scan exp' i lopen node = Inr r \<and> (\<forall>n. r = Some n \<longrightarrow> well_formed n)"
proof (induction exp and exp' i lopen node rule: create_exp_tree_scan.induct)
  case (1 exp)
  show ?case
  proof (cases "CHR ''|'' \<notin> set exp \<and> CHR ''&'' \<notin> set exp")
    case True
    then show ?thesis by (simp add: create_exp_tree_leaf)
  next
    case False
    then have ops: "CHR ''|'' \<in> set exp \<or> CHR ''&'' \<in> set exp" by blast
    show ?thesis
    proof (cases "str_count exp CHR ''('' < 1 \<and> slice_last exp = '')''")
      case True
      have "CHR ''|'' \<in> set (str_replace '')'' [] (str_replace ''('' [] exp))
          \<or> CHR ''&'' \<in> set (str_replace '')'' [] (str_replace ''('' [] exp))"
        using ops by (auto simp: str_replace_char_delete)
      from generate_node_total [OF this] show ?thesis
        by (simp only: create_exp_tree_closing [OF ops True])
    next
      case no_closing: False
      from "1.IH"(1) [OF False no_closing] obtain r where
        r: "scan exp 0 0 None = Inr r" "\<forall>n. r = Some n \<longrightarrow> well_formed n"
        by auto
      show ?thesis
      proof (cases r)
        case None
        with "1.IH"(2) [OF False no_closing] r show ?thesis
          by (simp add: create_exp_tree_loop [OF ops no_closing])
      next
        case (Some n)
        with r show ?thesis
          by (simp add: create_exp_tree_loop [OF ops no_closing])
      qed
    qed
  qed
next
  case (2 exp i lopen node)
  note wf = "2.prems"
  show ?case
  proof (cases "length exp \<le> i")
    case True
    with wf show ?thesis by (simp add: scan_end)
  next
    case False
    then have i: "i < length exp" by simp
    show ?thesis
    proof (cases "exp ! i = CHR ''(''")
      case True
      from "2.IH"(1) [OF False True wf] show ?thesis
        by (simp only: scan_open [OF i True])
    next
      case no_open: False
      show ?thesis
      proof (cases "exp ! i = CHR '')''")
        case True
        from "2.IH"(2) [OF False no_open True wf] show ?thesis
          by (simp only: scan_close [OF i True])
      next
        case no_close: False
        show ?thesis
        proof (cases "(exp ! i = CHR ''|'' \<or> exp ! i = CHR ''&'') \<and> lopen = 0")
          case True
          from "2.IH"(3) [OF False no_open no_close True] obtain l where
            l: "create_exp_tree (str_strip (take i exp)) = Inr l" "well_formed l"
            by auto
          from "2.IH"(4) [OF False no_open no_close True l(1)] obtain r where
            r: "create_exp_tree (str_strip (drop (i + 1) exp)) = Inr r" "well_formed r"
            by auto
          have "\<forall>n. Some (Node [exp ! i] (Some l) (Some r)) = Some n \<longrightarrow> well_formed n"
            using l r by simp
          from "2.IH"(5) [OF False no_open no_close True l(1) r(1) this] show ?thesis
            using True l r by (simp add: scan_operator [OF i])
        next
          case False
          from "2.IH"(6) [OF \<open>\<not> length exp \<le> i\<close> no_open no_close False wf] show ?thesis
            by (simp only: scan_skip [OF i no_open no_close False])
        qed
      qed
    qed
  qed
qed




text \<open>
  C9. Every tree the builder returns is well formed: each node has both children or
  none, and the two subtrees of a node with children are well formed in turn.
\<close>

theorem create_exp_tree_well_formed: "\<exists>t. create_exp_tree exp = Inr t \<and> well_formed t"
  by (rule create_exp_tree_scan_total(1))

theorem create_exp_tree_well_formed_witness:
  "\<exists>t. create_exp_tree ''(A&B)|C'' = Inr t \<and> well_formed t"
  by (rule create_exp_tree_well_formed)

section \<open>Flat chains are grouped from the left\<close>

lemma set_str_strip: "set (str_strip s) \<subseteq> set s"
proof -
  have "set (str_strip s) \<subseteq> set (dropWhile isspace s)"
    unfolding str_strip_def using set_dropWhileD [of _ isspace "rev (dropWhile isspace s)"]
    by auto
  also have "\<dots> \<subseteq> set s" using set_dropWhileD [of _ isspace s] by auto
  finally show ?thesis .
qed

lemma strip_commute:
  "dropWhile P (rev (dropWhile P (rev s))) = rev (dropWhile P (rev (dropWhile P s)))"
proof (cases "\<forall>x \<in> set s. P x")
  case True
  then have a: "dropWhile P s = []" and b: "dropWhile P (rev s) = []" by simp_all
  show ?thesis unfolding a b by simp
next
  case False
  then obtain a x t where s: "s = a @ x # t" and a: "\<forall>y \<in> set a. P y" and x: "\<not> P x"
    using split_list_first_prop [of s "\<lambda>x. \<not> P x"] by auto
  show ?thesis
    using a x by (simp add: s dropWhile_append3 dropWhile_append2)
qed

lemma str_strip_lstrip: "str_strip (dropWhile isspace s) = str_strip s"
  by (simp add: str_strip_def)

lemma str_strip_rstrip: "str_strip (rev (dropWhile isspace (rev s))) = str_strip s"
  unfolding str_strip_def by (simp add: strip_commute [of isspace s])

lemma str_strip_around:
  "\<not> isspace c \<Longrightarrow>
   str_strip (xs @ c # ys) = dropWhile isspace xs @ c # rev (dropWhile isspace (rev ys))"
  by (simp add: str_strip_def dropWhile_append3)

lemma scan_plain_suffix:
  "\<forall>j. i \<le> j \<and> j < length exp \<longrightarrow> plain [exp ! j] \<Longrightarrow> scan exp i lopen node = Inr node"
proof (induction "length exp - i" arbitrary: i)
  case 0
  then show ?case by (simp add: scan_end)
next
  case (Suc n)
  then have i: "i < length exp" by simp
  with Suc.prems have p: "plain [exp ! i]" by simp
  have "scan exp i lopen node = scan exp (i + 1) lopen node"
    using p by (intro scan_skip [OF i]) (auto simp: plain_def)
  also have "\<dots> = Inr node"
    using Suc.hyps(2) Suc.prems by (intro Suc.hyps(1)) auto
  finally show ?case .
qed

lemma scan_no_parens_prefix:
  "k \<le> length exp \<Longrightarrow> i \<le> k \<Longrightarrow>
   \<forall>j. i \<le> j \<and> j < k \<longrightarrow> exp ! j \<noteq> CHR ''('' \<and> exp ! j \<noteq> CHR '')'' \<Longrightarrow>
   \<exists>node'. scan exp i lopen node = scan exp k lopen node'"
proof (induction "k - i" arbitrary: i node)
  case 0
  then show ?case by auto
next
  case (Suc n)
  then have i: "i < length exp" "i < k" by simp_all
  with Suc.prems have np: "exp ! i \<noteq> CHR ''(''" "exp ! i \<noteq> CHR '')''" by simp_all
  have step: "\<exists>node1. scan exp i lopen node = scan exp (i + 1) lopen node1"
  proof (cases "(exp ! i = CHR ''|'' \<or> exp ! i = CHR ''&'') \<and> lopen = 0")
    case True
    obtain l where l: "create_exp_tree (str_strip (take i exp)) = Inr l"
      using create_exp_tree_scan_total(1) by blast
    obtain r where r: "create_exp_tree (str_strip (drop (i + 1) exp)) = Inr r"
      using create_exp_tree_scan_total(1) by blast
    show ?thesis using True l r by (auto simp: scan_operator [OF i(1)])
  next
    case False
    then show ?thesis using scan_skip [OF i(1) np False] by auto
  qed
  then obtain node1 where n1: "scan exp i lopen node = scan exp (i + 1) lopen node1" ..
  have "\<exists>node'. scan exp (i + 1) lopen node1 = scan exp k lopen node'"
    using Suc.hyps(2) Suc.prems i by (intro Suc.hyps(1)) auto
  with n1 show ?case by auto
qed

lemma create_exp_tree_last_operator:
  assumes xs: "no_parens xs" and c: "is_operator c" and ys: "plain ys"
    and l: "create_exp_tree (str_strip xs) = Inr l"
  shows "create_exp_tree (xs @ c # ys) = Inr (Node [c] (Some l) (Some (leaf (str_strip ys))))"
proof -
  let ?exp = "xs @ c # ys"
  have ops: "CHR ''|'' \<in> set ?exp \<or> CHR ''&'' \<in> set ?exp"
    using c by (auto simp: is_operator_def)
  have "slice_last ?exp \<noteq> '')''"
    using c ys by (cases ys rule: rev_cases) (auto simp: slice_last_def is_operator_def plain_def)
  then have no_closing: "\<not> (str_count ?exp CHR ''('' < 1 \<and> slice_last ?exp = '')'')" by simp
  have "plain (str_strip ys)"
    using ys set_str_strip [of ys] by (auto simp: plain_def list_all_iff)
  then have r: "create_exp_tree (str_strip ys) = Inr (leaf (str_strip ys))"
    by (intro create_exp_tree_leaf [unfolded leaf_def [symmetric]]) (auto simp: plain_def list_all_iff)
  have "?exp ! j \<noteq> CHR ''('' \<and> ?exp ! j \<noteq> CHR '')''" if "j < length xs" for j
  proof -
    have "?exp ! j = xs ! j" using that by (simp add: nth_append)
    moreover have "xs ! j \<in> set xs" using that by simp
    ultimately show ?thesis using xs unfolding no_parens_def by metis
  qed
  then have "\<forall>j. 0 \<le> j \<and> j < length xs \<longrightarrow> ?exp ! j \<noteq> CHR ''('' \<and> ?exp ! j \<noteq> CHR '')''"
    by blast
  then obtain node' where
    "scan ?exp 0 0 None = scan ?exp (length xs) 0 node'"
    using scan_no_parens_prefix [where k = "length xs" and i = 0 and exp = ?exp and lopen = 0
        and node = None]
    by auto
  also have "\<dots> = scan ?exp (length xs + 1) 0 (Some (Node [c] (Some l) (Some (leaf (str_strip ys)))))"
  proof -
    have "length xs < length ?exp" by simp
    moreover have "?exp ! length xs = CHR ''|'' \<or> ?exp ! length xs = CHR ''&''"
      using c by (simp add: is_operator_def)
    ultimately show ?thesis
      using l r by (simp add: scan_operator)
  qed
  also have "\<dots> = Inr (Some (Node [c] (Some l) (Some (leaf (str_strip ys)))))"
  proof (rule scan_plain_suffix, intro allI impI)
    fix j
    assume "length xs + 1 \<le> j \<and> j < length ?exp"
    then have "?exp ! j = ys ! (j - length xs - 1)" "j - length xs - 1 < length ys"
      by (auto simp: nth_append)
    then show "plain [?exp ! j]"
      using ys by (simp add: plain_def list_all_length)
  qed
  finally have "scan ?exp 0 0 None = Inr (Some (Node [c] (Some l) (Some (leaf (str_strip ys)))))" .
  then show ?thesis
    by (simp add: create_exp_tree_loop [OF ops no_closing])
qed

lemma plain_no_parens: "plain s \<Longrightarrow> no_parens s"
  by (auto simp: plain_def no_parens_def list_all_iff)

lemma no_parens_chain: "plain o1 \<Longrightarrow> chain_ok rest \<Longrightarrow> no_parens (chain o1 rest)"
proof (induction rest rule: rev_induct)
  case Nil
  then show ?case by (simp add: chain_def plain_no_parens)
next
  case (snoc p rest)
  obtain c x where p: "p = (c, x)" by (cases p)
  from snoc.prems have "is_operator c" "plain x" "chain_ok rest"
    by (simp_all add: chain_ok_def p)
  moreover have "chain o1 (rest @ [p]) = chain o1 rest @ c # x"
    by (simp add: chain_def p)
  ultimately show ?case
    using snoc.IH snoc.prems(1) plain_no_parens [of x]
    by (auto simp: no_parens_def is_operator_def)
qed

lemma not_isspace_operator: "is_operator c \<Longrightarrow> \<not> isspace c"
  by (auto simp: is_operator_def isspace_def)

lemma plain_subset: "plain s \<Longrightarrow> set t \<subseteq> set s \<Longrightarrow> plain t"
  by (auto simp: plain_def list_all_iff)

lemma no_parens_subset: "no_parens s \<Longrightarrow> set t \<subseteq> set s \<Longrightarrow> no_parens t"
  by (auto simp: no_parens_def)

lemma create_exp_tree_plain: "plain s \<Longrightarrow> create_exp_tree s = Inr (leaf s)"
  unfolding leaf_def by (rule create_exp_tree_leaf) (auto simp: plain_def list_all_iff)

lemma create_exp_tree_strip_chain:
  "plain o1 \<Longrightarrow> chain_ok rest \<Longrightarrow>
   create_exp_tree (str_strip (chain o1 rest)) = Inr (left_assoc o1 rest)"
proof (induction rest rule: rev_induct)
  case Nil
  have "plain (str_strip o1)" using Nil(1) set_str_strip by (rule plain_subset)
  then show ?case
    by (simp add: chain_def left_assoc_def create_exp_tree_plain)
next
  case (snoc p rest)
  obtain c x where p: "p = (c, x)" by (cases p)
  from snoc.prems have c: "is_operator c" and x: "plain x" and rest: "chain_ok rest"
    by (simp_all add: chain_ok_def p)
  let ?xs = "dropWhile isspace (chain o1 rest)"
  let ?ys = "rev (dropWhile isspace (rev x))"
  have "chain o1 (rest @ [p]) = chain o1 rest @ c # x"
    by (simp add: chain_def p)
  then have strip: "str_strip (chain o1 (rest @ [p])) = ?xs @ c # ?ys"
    using not_isspace_operator [OF c] by (simp add: str_strip_around)
  have "no_parens ?xs"
    using no_parens_chain [OF snoc.prems(1) rest] by (rule no_parens_subset) (auto dest: set_dropWhileD)
  moreover have "plain ?ys"
    using x by (rule plain_subset) (auto dest: set_dropWhileD)
  moreover have "create_exp_tree (str_strip ?xs) = Inr (left_assoc o1 rest)"
    using snoc.IH [OF snoc.prems(1) rest] by (simp add: str_strip_lstrip)
  ultimately have "create_exp_tree (?xs @ c # ?ys) =
      Inr (Node [c] (Some (left_assoc o1 rest)) (Some (leaf (str_strip ?ys))))"
    using c by (intro create_exp_tree_last_operator)
  then show ?case
    unfolding strip by (simp add: str_strip_rstrip left_assoc_def p)
qed

text \<open>
  C2. For a flat chain of operands joined by operators, the builder splits at the last
  operator: the right child of the root is the leaf of the last operand, trimmed, and the
  left child is the tree built from the text before that operator, which is the
  left-associative tree of the operands before it. So the two leftmost operands are
  combined deepest.
\<close>

theorem create_exp_tree_left_associative:
  assumes "plain o1" and "chain_ok rest" and "is_operator c" and "plain x"
  shows "create_exp_tree (chain o1 (rest @ [(c, x)])) =
           Inr (Node [c] (Some (left_assoc o1 rest)) (Some (leaf (str_strip x))))
         \<and> create_exp_tree (str_strip (chain o1 rest)) = Inr (left_assoc o1 rest)"
proof -
  have l: "create_exp_tree (str_strip (chain o1 rest)) = Inr (left_assoc o1 rest)"
    using assms(1,2) by (rule create_exp_tree_strip_chain)
  have "chain o1 (rest @ [(c, x)]) = chain o1 rest @ c # x"
    by (simp add: chain_def)
  moreover have "create_exp_tree (chain o1 rest @ c # x) =
      Inr (Node [c] (Some (left_assoc o1 rest)) (Some (leaf (str_strip x))))"
    using no_parens_chain [OF assms(1,2)] assms(3,4) l by (rule create_exp_tree_last_operator)
  ultimately show ?thesis using l by simp
qed

theorem create_exp_tree_left_associative_witness:
  "plain ''A '' \<and> chain_ok [(CHR ''&'', '' B '')] \<and> is_operator CHR ''|'' \<and> plain '' C''
   \<and> create_exp_tree ''A & B | C'' =
       Inr (Node ''|''
              (Some (Node ''&'' (Some (Node ''A'' None None)) (Some (Node ''B'' None None))))
              (Some (Node ''C'' None None)))
   \<and> create_exp_tree ''A & B'' =
       Inr (Node ''&'' (Some (Node ''A'' None None)) (Some (Node ''B'' None None)))"
  using create_exp_tree_left_associative [of "''A ''" "[(CHR ''&'', '' B '')]" "CHR ''|''" "'' C''"]
  by (simp add: plain_def chain_ok_def is_operator_def chain_def left_assoc_def leaf_def
      str_strip_def isspace_def)

section \<open>Single operands\<close>

text \<open>An input without \<open>|\<close> and \<open>&\<close> becomes one leaf that holds the text as it is given.\<close>

lemma create_exp_tree_single_operand:
  "CHR ''|'' \<notin> set exp \<Longrightarrow> CHR ''&'' \<notin> set exp \<Longrightarrow>
   create_exp_tree exp = Inr (Node exp None None) \<and> well_formed (Node exp None None)"
  by (simp add: create_exp_tree_leaf)

text \<open>
  C3. The specification has an input without an operator become one leaf that holds the
  trimmed operand, and each of the four backends wrap exactly one clause for it. In the
  code the leaf keeps the blanks around the operand, as the queryset result for
  \<open> Java \<close> shows, and the relational branch slices the first and the last character
  off the lone predicate of \<open>Java\<close>, the quote that closes it among them.
\<close>

theorem single_operand_queries:
  \<open>create_exp_tree (normalize '' Java '') = Inr (Node '' Java '' None None)
   \<and> str_strip '' Java '' = ''Java''
   \<and> fst (generate_query '' Java '' ''ORM'' []) =
       Inr (''text__icontains='' @ [CHR 0x27] @ '' Java '' @ [CHR 0x27])
   \<and> fst (generate_query ''Java'' ''SQL'' []) =
       Inr (''SELECT * FROM Resume WHERE text like '' @ [CHR 0x27] @ ''%Java%'')\<close>
  by code_simp

section \<open>Unsupported backends\<close>

text \<open>
  An identifier that is not a key of \<open>BASE_QUERIES\<close> after \<open>upper()\<close> gets the message
  back as a value, and nothing is parsed or printed.
\<close>

lemma generate_query_unsupported:
  "str_upper query_type \<notin> set (map fst BASE_QUERIES) \<Longrightarrow>
   generate_query exp query_type out = (Inr invalid_query_type, out)"
  by (simp add: generate_query_def Let_def)

text \<open>
  C4. The specification has the message for an unsupported backend such as \<open>XML\<close> name
  all four accepted backends. The message of the code names SQL, MONGODB and ORM only,
  although ELASTICSEARCH is accepted as well, in any case of the letters.
\<close>

theorem invalid_query_type_message:
  \<open>generate_query ''Java'' ''XML'' [] = (Inr invalid_query_type, [])
   \<and> \<not> str_contains ''ELASTICSEARCH'' invalid_query_type
   \<and> str_upper ''ElasticSearch'' \<in> set (map fst BASE_QUERIES)\<close>
  by code_simp

section \<open>The emitters on the example of the module\<close>

text \<open>
  C5. The specification has the document-store emitter render an operator node as a
  document with the lower-case key \<open>$and\<close> or \<open>$or\<close> and the array of its two parts. For
  \<open>(Java AND Spring) OR (Python AND Django)\<close> the code returns the text below: the keys
  are \<open>$OR\<close> and \<open>$AND\<close>, in capitals and unquoted, and an operator node below the root
  has no braces of its own.
\<close>

theorem mongodb_query_example:
  \<open>fst (generate_query ''(Java AND Spring) OR (Python AND Django)'' ''MONGODB'' []) =
     Inr ''{ $OR : [ $AND : [{"text" : /.*Java.*/i}, {"text" : /.*Spring.*/i}],  $AND : [{"text" : /.*Python.*/i}, {"text" : /.*Django.*/i}]]}''\<close>
  by code_simp

text \<open>
  C6. The specification has the search-DSL emitter render an operator node as a
  \<open>bool\<close> document with the key \<open>must\<close> or \<open>should\<close>, and a leaf as a \<open>match\<close> on the
  field \<open>text\<close>. For the same input the code returns the text below: the keys are
  \<open>"SHOULD"\<close> and \<open>"MUST"\<close> in capitals, and a leaf opens three braces, the third around
  the quoted operand, and closes two.
\<close>

theorem elasticsearch_query_example:
  \<open>fst (generate_query ''(Java AND Spring) OR (Python AND Django)'' ''ELASTICSEARCH'' []) =
     Inr '' "query":  { "bool" : { "SHOULD" : [ { "bool" : { "MUST" : [{"match" : { "text" : {"Java"} } , {"match" : { "text" : {"Spring"} } ]} },  { "bool" : { "MUST" : [{"match" : { "text" : {"Python"} } , {"match" : { "text" : {"Django"} } ]} }]} }''\<close>
  by code_simp

text \<open>
  The relational body. For a root with two children the slice \<open>[1:-1]\<close> removes the
  outer parentheses, and the body is the left part, the keyword and the right part.
\<close>

lemma slice_inner_wrapped: "slice_inner (a # xs @ [b]) = xs"
  by (simp add: slice_inner_def)

lemma create_query_SQL:
  "inorder (Some root) = Some q \<Longrightarrow>
   create_query root ''SQL'' = Inr (''SELECT * FROM Resume WHERE '' @ sql_keywords (slice_inner q))"
  by (simp add: create_query_def sql_keywords_def dict_get_def BASE_QUERIES_def END_QUERIES_def)

lemma create_query_SQL_operator_root:
  "create_query (Node v (Some l) (Some r)) ''SQL'' =
     Inr (''SELECT * FROM Resume WHERE '' @
          sql_keywords (fmt (inorder (Some l)) @ '' '' @ v @ '' '' @ fmt (inorder (Some r))))"
proof -
  let ?body = "fmt (inorder (Some l)) @ '' '' @ v @ '' '' @ fmt (inorder (Some r))"
  have "inorder (Some (Node v (Some l) (Some r))) = Some (CHR ''('' # ?body @ '')'')"
    by simp
  from create_query_SQL [OF this] show ?thesis
    by (simp only: slice_inner_wrapped)
qed

lemma sql_query_example:
  \<open>fst (generate_query ''(Java AND Spring) OR (Python AND Django)'' ''SQL'' []) =
     Inr (''SELECT * FROM Resume WHERE ( text like '' @ [CHR 0x27] @ ''%Java%'' @ [CHR 0x27] @
          '' AND  text like '' @ [CHR 0x27] @ ''%Spring%'' @ [CHR 0x27] @
          '') OR ( text like '' @ [CHR 0x27] @ ''%Python%'' @ [CHR 0x27] @
          '' AND  text like '' @ [CHR 0x27] @ ''%Django%'' @ [CHR 0x27] @ '')'')\<close>
  by code_simp

text \<open>
  C7. The specification has the relational emitter render every leaf as the predicate
  \<open>text like '%operand%'\<close> and strip only a redundant outer pair of parentheses from the
  body, for every tree. For a root that is a leaf there is no such pair, and the slice of
  the code removes the blank in front of the predicate and the quote that closes it.
\<close>

theorem sql_single_leaf:
  \<open>inorder (Some (Node ''Java'' None None)) =
     Some ('' text like '' @ [CHR 0x27] @ ''%Java%'' @ [CHR 0x27])
   \<and> create_query (Node ''Java'' None None) ''SQL'' =
       Inr (''SELECT * FROM Resume WHERE text like '' @ [CHR 0x27] @ ''%Java%'')\<close>
  by code_simp

section \<open>Determinism\<close>

text \<open>
  C8. \<open>generate_query\<close> returns the same text for the same expression and backend,
  whatever has been printed before and also right after a first call with the same
  arguments; the only thing a call leaves behind is what it appends to the console.
\<close>

theorem generate_query_deterministic:
  "fst (generate_query exp query_type out1) = fst (generate_query exp query_type out2)
   \<and> fst (generate_query exp query_type (snd (generate_query exp query_type out1))) =
       fst (generate_query exp query_type out1)
   \<and> (\<exists>printed. snd (generate_query exp query_type out1) = out1 @ printed)"
  by (simp add: generate_query_def Let_def split: sum.splits)

section \<open>Normalization\<close>






text \<open>Each of the four forms is turned into its operator.\<close>

lemma normalize_four_forms: "normalize ''A AND B or C and D OR E'' = ''A&B|C&D|E''"
  by code_simp




end
